theory Spec2Isabelle
  imports Main "HOL-Library.Word"
begin

section \<open>JavaScript strings\<close>

text \<open>
  A JavaScript string is a sequence of UTF-16 code units. The development works with the
  code units U+0000 .. U+00FF, one \<^typ>\<open>char\<close> each (the code of the \<^typ>\<open>char\<close> is the
  code unit). In that range the white space of \<^verbatim>\<open>String.prototype.trim\<close> and of the regular
  expression class \<^verbatim>\<open>\s\<close> is TAB, LF, VT, FF, CR, SPACE and NO-BREAK SPACE, and the line
  terminators are LF and CR.
\<close>

definition isWhiteSpace :: "char \<Rightarrow> bool" where
  "isWhiteSpace c = (of_char c \<in> {9, 10, 11, 12, 13, 32, 160 :: nat})"

definition isLineTerminator :: "char \<Rightarrow> bool" where
  "isLineTerminator c = (of_char c \<in> {10, 13 :: nat})"

definition trimStart :: "string \<Rightarrow> string" where
  "trimStart s = dropWhile isWhiteSpace s"

definition trimEnd :: "string \<Rightarrow> string" where
  "trimEnd s = rev (dropWhile isWhiteSpace (rev s))"

definition trim :: "string \<Rightarrow> string" where
  "trim s = trimEnd (trimStart s)"

text \<open>
  \<^verbatim>\<open>String.prototype.toLowerCase\<close> on U+0000 .. U+00FF: the letters A .. Z and the
  letters U+00C0 .. U+00DE (without the multiplication sign U+00D7) move up by 32.
\<close>

definition toLowerChar :: "char \<Rightarrow> char" where
  "toLowerChar c =
     (let n = (of_char c :: nat)
      in if (65 \<le> n \<and> n \<le> 90) \<or> (192 \<le> n \<and> n \<le> 222 \<and> n \<noteq> 215)
         then char_of (n + 32) else c)"

definition toLowerCase :: "string \<Rightarrow> string" where
  "toLowerCase s = map toLowerChar s"

text \<open>\<^verbatim>\<open>s.slice(a, b)\<close> for indices \<open>0 \<le> a\<close>, \<open>0 \<le> b\<close>: both are clamped to the length.\<close>

definition slice_str :: "string \<Rightarrow> nat \<Rightarrow> nat \<Rightarrow> string" where
  "slice_str s a b = take (b - a) (drop a s)"

text \<open>A string is truthy when it is not empty; an absent (undefined) one is falsy.\<close>

fun truthy_str :: "string option \<Rightarrow> bool" where
  "truthy_str None = False"
| "truthy_str (Some s) = (s \<noteq> [])"


section \<open>Exceptions\<close>

text \<open>
  What a function throws. \<open>Error m\<close> is a JavaScript \<^verbatim>\<open>Error\<close> with message \<open>m\<close>, raised by
  the code or by a library, \<open>TypeError m\<close> the error of the run time for a call of something
  that is no function. The source casts untyped records to its parameter types without a
  check (\<^verbatim>\<open>as string\<close>, \<^verbatim>\<open>as { type_url: string; value: Buffer }\<close>); \<open>IllTyped\<close> marks an
  input outside those declared types, whose run-time behaviour is not described further.
\<close>

datatype error = Error string | TypeError string | IllTyped

fun message :: "error \<Rightarrow> string" where
  "message (Error m) = m"
| "message (TypeError m) = m"
| "message IllTyped = []"


section \<open>Call metadata (grpcClient.ts, createMetadata)\<close>

text \<open>
  \<^verbatim>\<open>MetadataEntry\<close> of types.ts. The source reads both fields through \<^verbatim>\<open>?.\<close>, so an
  absent field (\<open>None\<close>) is part of the model.
\<close>

record MetadataEntry =
  key :: "string option"
  val :: "string option"

text \<open>
  \<^verbatim>\<open>grpc.Metadata\<close> belongs to @grpc/grpc-js. Its \<^verbatim>\<open>add(key, value)\<close> puts the key in lower
  case and validates before it stores: the key must match \<^verbatim>\<open>/^[0-9a-z_.-]+$/\<close>, a key that
  ends in \<^verbatim>\<open>-bin\<close> must come with a \<^verbatim>\<open>Buffer\<close> (here every value is a string), and the
  string value of any other key must match \<^verbatim>\<open>/^[ -~]*$/\<close>; otherwise \<^verbatim>\<open>add\<close> throws. The
  model keeps the accepted pairs in call order.
\<close>

type_synonym Metadata = "(string \<times> string) list"

definition new_Metadata :: Metadata where
  "new_Metadata = []"

definition isLegalKey :: "string \<Rightarrow> bool" where
  "isLegalKey k =
     (k \<noteq> [] \<and> list_all (\<lambda>c. c \<in> set ''0123456789abcdefghijklmnopqrstuvwxyz_.-'') k)"

definition isBinaryKey :: "string \<Rightarrow> bool" where
  "isBinaryKey k = (4 \<le> length k \<and> drop (length k - 4) k = ''-bin'')"

definition isLegalNonBinaryValue :: "string \<Rightarrow> bool" where
  "isLegalNonBinaryValue v = list_all (\<lambda>c. 32 \<le> (of_char c :: nat) \<and> (of_char c :: nat) \<le> 126) v"

definition Metadata_add :: "Metadata \<Rightarrow> string \<Rightarrow> string \<Rightarrow> error + Metadata" where
  \<open>Metadata_add md k v =
     (let k' = toLowerCase k
      in if \<not> isLegalKey k'
         then Inl (Error (''Metadata key "'' @ k' @ ''" contains illegal characters''))
         else if isBinaryKey k'
         then Inl (Error (''keys that end with '' @ [CHR 0x27] @ ''-bin'' @ [CHR 0x27]
                          @ '' must have Buffer values''))
         else if \<not> isLegalNonBinaryValue v
         then Inl (Error (''Metadata string value "'' @ v @ ''" contains illegal characters''))
         else Inr (md @ [(k', v)]))\<close>

text \<open>
  The \<^verbatim>\<open>for (const entry of entries)\<close> loop of \<^verbatim>\<open>createMetadata\<close>; an exception of \<^verbatim>\<open>add\<close>
  leaves the loop and the function.
\<close>

fun createMetadata_loop :: "Metadata \<Rightarrow> MetadataEntry list \<Rightarrow> error + Metadata" where
  "createMetadata_loop metadata [] = Inr metadata"
| "createMetadata_loop metadata (entry # entries) =
     (let k = map_option trim (key entry);
          v = map_option trim (val entry)
      in if truthy_str k \<and> truthy_str v
         then (case Metadata_add metadata (toLowerCase (the k)) (the v) of
                 Inl e \<Rightarrow> Inl e
               | Inr metadata' \<Rightarrow> createMetadata_loop metadata' entries)
         else createMetadata_loop metadata entries)"

definition createMetadata :: "MetadataEntry list \<Rightarrow> error + Metadata" where
  "createMetadata entries = createMetadata_loop new_Metadata entries"

text \<open>
  The claim's wording: an entry is kept when key and value are non-empty after trimming.
  A kept entry is legal when \<^verbatim>\<open>add\<close> accepts its lower-case key and its value.
\<close>

definition entry_kept :: "MetadataEntry \<Rightarrow> bool" where
  "entry_kept e =
     (case (key e, val e) of
        (Some k, Some v) \<Rightarrow> trim k \<noteq> [] \<and> trim v \<noteq> []
      | _ \<Rightarrow> False)"

definition entry_sent :: "MetadataEntry \<Rightarrow> string \<times> string" where
  "entry_sent e = (toLowerCase (trim (the (key e))), trim (the (val e)))"

definition entry_legal :: "MetadataEntry \<Rightarrow> bool" where
  "entry_legal e =
     (isLegalKey (fst (entry_sent e)) \<and> \<not> isBinaryKey (fst (entry_sent e))
      \<and> isLegalNonBinaryValue (snd (entry_sent e)))"

definition all_kept_legal :: "MetadataEntry list \<Rightarrow> bool" where
  "all_kept_legal entries = list_all entry_legal (filter entry_kept entries)"


section \<open>The proto text splitter (protoParser.ts, parseDelimitedProtoContent)\<close>

record ProtoFile =
  filename :: string
  content :: string

subsection \<open>The delimiter regular expression\<close>

text \<open>
  The source's pattern is \<^verbatim>\<open>/^\[\[=+\s*([^\]=]+\.proto)\s*=+\]\]\s*$/gm\<close>: a sequence of
  anchors, literal characters, greedy repetitions of a character class, and one capture
  group. \<open>rx_match\<close> is the backtracking matcher of ECMAScript for such a sequence: a
  greedy repetition first tries to take one more character and falls back to the rest of
  the pattern when that fails. With the \<^verbatim>\<open>m\<close> flag \<^verbatim>\<open>^\<close> holds at index 0 and after a line
  terminator, \<^verbatim>\<open>$\<close> at the end of the input and before a line terminator.
  The result is the end index of the match and the bounds of the capture group.
\<close>

datatype rx_item =
    Bol
  | Eol
  | Lit char
  | Star "char \<Rightarrow> bool"
  | Plus "char \<Rightarrow> bool"
  | GroupOpen
  | GroupClose

function rx_match :: "rx_item list \<Rightarrow> string \<Rightarrow> nat \<Rightarrow> nat \<times> nat \<Rightarrow> (nat \<times> nat \<times> nat) option" where
  "rx_match [] s i cap = Some (i, cap)"
| "rx_match (Bol # r) s i cap =
     (if i = 0 \<or> isLineTerminator (s ! (i - 1)) then rx_match r s i cap else None)"
| "rx_match (Eol # r) s i cap =
     (if length s \<le> i \<or> isLineTerminator (s ! i) then rx_match r s i cap else None)"
| "rx_match (Lit c # r) s i cap =
     (if i < length s \<and> s ! i = c then rx_match r s (i + 1) cap else None)"
| "rx_match (Star p # r) s i cap =
     (if i < length s \<and> p (s ! i)
      then (case rx_match (Star p # r) s (i + 1) cap of
              Some m \<Rightarrow> Some m
            | None \<Rightarrow> rx_match r s i cap)
      else rx_match r s i cap)"
| "rx_match (Plus p # r) s i cap =
     (if i < length s \<and> p (s ! i) then rx_match (Star p # r) s (i + 1) cap else None)"
| "rx_match (GroupOpen # r) s i cap = rx_match r s i (i, snd cap)"
| "rx_match (GroupClose # r) s i cap = rx_match r s i (fst cap, i)"
  by pat_completeness auto
termination
  by (relation "measures [\<lambda>(r, s, i, cap). length r, \<lambda>(r, s, i, cap). length s - i]") auto

definition delimiterRegex :: "rx_item list" where
  "delimiterRegex =
     [Bol, Lit CHR ''['', Lit CHR ''['', Plus (\<lambda>c. c = CHR ''=''), Star isWhiteSpace,
      GroupOpen, Plus (\<lambda>c. c \<noteq> CHR '']'' \<and> c \<noteq> CHR ''=''),
      Lit CHR ''.'', Lit CHR ''p'', Lit CHR ''r'', Lit CHR ''o'', Lit CHR ''t'', Lit CHR ''o'',
      GroupClose, Star isWhiteSpace, Plus (\<lambda>c. c = CHR ''=''),
      Lit CHR '']'', Lit CHR '']'', Star isWhiteSpace, Eol]"

text \<open>
  One element of \<^verbatim>\<open>[...content.matchAll(delimiterRegex)]\<close>: \<^verbatim>\<open>match.index\<close>, \<^verbatim>\<open>match[0]\<close>
  and \<^verbatim>\<open>match[1]\<close>.
\<close>

record RegExpMatch =
  index :: nat
  whole :: string
  group1 :: string

text \<open>
  \<^verbatim>\<open>matchAll\<close> with the \<^verbatim>\<open>g\<close> flag: the leftmost match at or after \<open>lastIndex\<close>, then on
  from the end of that match (one further when the match is empty).
\<close>

function matchAll_from :: "rx_item list \<Rightarrow> string \<Rightarrow> nat \<Rightarrow> RegExpMatch list" where
  "matchAll_from rx s lastIndex =
     (if length s < lastIndex then []
      else case rx_match rx s lastIndex (0, 0) of
             None \<Rightarrow> matchAll_from rx s (lastIndex + 1)
           | Some (e, a, b) \<Rightarrow>
               \<lparr>index = lastIndex, whole = slice_str s lastIndex e, group1 = slice_str s a b\<rparr>
                 # matchAll_from rx s (if e \<le> lastIndex then lastIndex + 1 else e))"
  by pat_completeness auto
termination
  by (relation "measure (\<lambda>(rx, s, i). length s + 1 - i)") auto

declare matchAll_from.simps [simp del]

definition matchAll :: "rx_item list \<Rightarrow> string \<Rightarrow> RegExpMatch list" where
  "matchAll rx s = matchAll_from rx s 0"

subsection \<open>The splitter\<close>

text \<open>The \<^verbatim>\<open>for (let i = 0; i < matches.length; i++)\<close> loop, with \<^verbatim>\<open>files\<close> as accumulator.\<close>

function files_loop :: "string \<Rightarrow> RegExpMatch list \<Rightarrow> nat \<Rightarrow> ProtoFile list \<Rightarrow> ProtoFile list" where
  "files_loop input matches i files =
     (if i < length matches
      then let match = matches ! i;
               name = trim (group1 match);
               startIndex = index match + length (whole match);
               endIndex = (if i + 1 < length matches then index (matches ! (i + 1))
                           else length input);
               fileContent = trim (slice_str input startIndex endIndex)
           in files_loop input matches (i + 1)
                (if fileContent \<noteq> [] then files @ [\<lparr>filename = name, content = fileContent\<rparr>]
                 else files)
      else files)"
  by pat_completeness auto
termination
  by (relation "measure (\<lambda>(input, matches, i, files). length matches - i)") auto

declare files_loop.simps [simp del]

definition parseDelimitedProtoContent :: "string \<Rightarrow> ProtoFile list" where
  "parseDelimitedProtoContent input =
     (if input = [] \<or> trim input = [] then []
      else let matches = matchAll delimiterRegex input
           in if length matches = 0
              then [\<lparr>filename = ''main.proto'', content = trim input\<rparr>]
              else files_loop input matches 0 [])"

text \<open>
  The claim's wording for an input with markers: each marker, paired with the start of the
  next marker (the end of the input for the last one), gives the file named in the marker
  with the trimmed text in between; a file with empty content is left out.
\<close>

definition marker_file :: "string \<Rightarrow> RegExpMatch \<times> nat \<Rightarrow> ProtoFile list" where
  "marker_file input = (\<lambda>(m, next).
     (let c = trim (slice_str input (index m + length (whole m)) next)
      in if c = [] then [] else [\<lparr>filename = trim (group1 m), content = c\<rparr>]))"

definition marker_files :: "string \<Rightarrow> RegExpMatch list \<Rightarrow> ProtoFile list" where
  "marker_files input ms =
     concat (map (marker_file input) (zip ms (map index (tl ms) @ [length input])))"

section \<open>JavaScript values\<close>

text \<open>
  The values that travel through the codec: JSON values, \<open>undefined\<close>, and byte buffers
  (\<^verbatim>\<open>Buffer\<close>, \<^verbatim>\<open>Uint8Array\<close>). An object is the list of its own enumerable properties in
  the order of \<^verbatim>\<open>Object.entries\<close>, with distinct keys. Numbers are kept as integers: the
  code only tests them for truthiness and passes them on.
\<close>

type_synonym byte = "8 word"

datatype jsval =
    Undefined
  | Null
  | Bool bool
  | Num int
  | Str string
  | Bytes "byte list"
  | Arr "jsval list"
  | Obj "(string \<times> jsval) list"

type_synonym jsobj = "(string \<times> jsval) list"

fun truthy :: "jsval \<Rightarrow> bool" where
  "truthy Undefined = False"
| "truthy Null = False"
| "truthy (Bool b) = b"
| "truthy (Num n) = (n \<noteq> 0)"
| "truthy (Str s) = (s \<noteq> [])"
| "truthy (Bytes b) = True"
| "truthy (Arr xs) = True"
| "truthy (Obj kvs) = True"

text \<open>\<^verbatim>\<open>k in o\<close> and \<^verbatim>\<open>o[k]\<close> for the own properties of a plain object.\<close>

definition has_key :: "jsobj \<Rightarrow> string \<Rightarrow> bool" where
  "has_key obj k = (k \<in> fst ` set obj)"

definition obj_get :: "jsobj \<Rightarrow> string \<Rightarrow> jsval" where
  "obj_get obj k = (case map_of obj k of None \<Rightarrow> Undefined | Some v \<Rightarrow> v)"

text \<open>
  \<^verbatim>\<open>o[k] = v\<close> on a plain object: an own property keeps its place, a new one goes to the
  end; the key \<^verbatim>\<open>__proto__\<close> reaches the prototype setter and creates no own property.
  (Proto field names are identifiers, so the keys that look like array indices, which
  JavaScript lists first, do not occur.)
\<close>

fun obj_update :: "jsobj \<Rightarrow> string \<Rightarrow> jsval \<Rightarrow> jsobj" where
  "obj_update [] k v = [(k, v)]"
| "obj_update ((k', v') # rest) k v =
     (if k' = k then (k, v) # rest else (k', v') # obj_update rest k v)"

definition obj_set :: "jsobj \<Rightarrow> string \<Rightarrow> jsval \<Rightarrow> jsobj" where
  "obj_set obj k v = (if k = ''__proto__'' then obj else obj_update obj k v)"

text \<open>The object literal \<^verbatim>\<open>{ ...base, ...src }\<close>: the properties of \<open>src\<close> are defined on a copy of \<open>base\<close>.\<close>

definition spread :: "jsobj \<Rightarrow> jsobj \<Rightarrow> jsobj" where
  "spread base src = fold (\<lambda>(k, v) acc. obj_update acc k v) src base"

text \<open>The rest pattern \<^verbatim>\<open>const { '@type': _, ...messageFields } = jsonValue\<close>.\<close>

definition without_key :: "string \<Rightarrow> jsobj \<Rightarrow> jsobj" where
  "without_key k obj = filter (\<lambda>(k', v). k' \<noteq> k) obj"

text \<open>\<^verbatim>\<open>s.split(sep)\<close> for a separator of one character, and the decimal form of a number.\<close>

fun split :: "char \<Rightarrow> string \<Rightarrow> string list" where
  "split sep [] = [[]]"
| "split sep (c # cs) =
     (if c = sep then [] # split sep cs
      else (case split sep cs of
              [] \<Rightarrow> [[c]]
            | part # parts \<Rightarrow> (c # part) # parts))"

function show_nat :: "nat \<Rightarrow> string" where
  "show_nat n =
     (if n < 10 then [char_of (48 + n)]
      else show_nat (n div 10) @ [char_of (48 + n mod 10)])"
  by pat_completeness auto
termination
  by (relation "measure id") auto

declare show_nat.simps [simp del]

text \<open>
  \<^verbatim>\<open>Object.entries\<close> of a byte buffer: one property per index, holding the byte as a number.
\<close>

definition buffer_entries :: "byte list \<Rightarrow> jsobj" where
  "buffer_entries b = map (\<lambda>i. (show_nat i, Num (int (unat (b ! i))))) [0..<length b]"


section \<open>The libraries the code calls\<close>

text \<open>
  protobufjs and Node's \<^verbatim>\<open>Buffer\<close> are not part of the repository. Their functions are
  parameters of the model, collected in one record; \<open>'root\<close> is \<^verbatim>\<open>protobuf.Root\<close> and \<open>'ty\<close>
  is \<^verbatim>\<open>protobuf.Type\<close>. A function that throws returns \<open>Inl\<close>. \<^verbatim>\<open>protobuf.parse\<close> and
  \<^verbatim>\<open>root.resolveAll\<close> change the root in place, also when they throw, so they return the
  root together with the error, if any.

  \<^item> \<open>lookupType root name\<close> is \<^verbatim>\<open>root.lookupType(name)\<close>; it returns a message type or,
    for a path that names nothing (such as \<^verbatim>\<open>..\<close>), the root object itself, or it throws;
  \<^item> \<open>verify ty fields\<close> is \<^verbatim>\<open>ty.verify(fields)\<close> (\<open>None\<close> for \<^verbatim>\<open>null\<close>);
  \<^item> \<open>create_encode ty fields\<close> is \<^verbatim>\<open>ty.encode(ty.create(fields)).finish()\<close>;
  \<^item> \<open>decode_toObject ty bytes\<close> is \<^verbatim>\<open>ty.toObject(ty.decode(bytes), opts)\<close> with the
    source's \<^verbatim>\<open>opts = { longs: String, enums: String, bytes: String, defaults: true }\<close>;
  \<^item> \<open>toString_base64 bytes\<close> is \<^verbatim>\<open>Buffer.from(bytes).toString('base64')\<close>;
  \<^item> \<open>parse text root\<close> is \<^verbatim>\<open>protobuf.parse(text, root)\<close>, \<open>resolveAll root\<close> is
    \<^verbatim>\<open>root.resolveAll()\<close>, and \<open>new_Root\<close> is \<^verbatim>\<open>new protobuf.Root()\<close>.
\<close>

datatype 'ty found = Found_Type 'ty | Found_Root

record ('root, 'ty) protobufjs =
  lookupType :: "'root \<Rightarrow> string \<Rightarrow> error + 'ty found"
  verify :: "'ty \<Rightarrow> jsobj \<Rightarrow> string option"
  create_encode :: "'ty \<Rightarrow> jsobj \<Rightarrow> error + byte list"
  decode_toObject :: "'ty \<Rightarrow> byte list \<Rightarrow> error + jsobj"
  toString_base64 :: "byte list \<Rightarrow> string"
  parse :: "string \<Rightarrow> 'root \<Rightarrow> error option \<times> 'root"
  resolveAll :: "'root \<Rightarrow> error option \<times> 'root"
  new_Root :: "'root"


section \<open>The Any codec (grpcClient.ts)\<close>

text \<open>
  \<^verbatim>\<open>typeUrl.includes('/') ? typeUrl.split('/').pop()! : typeUrl\<close>: the part after the last slash.
\<close>

definition typeNameOf :: "string \<Rightarrow> string" where
  "typeNameOf typeUrl =
     (if CHR ''/'' \<in> set typeUrl then last (split CHR ''/'' typeUrl) else typeUrl)"

text \<open>
  \<^verbatim>\<open>root.lookupType(path)\<close> as the code meets it. protobufjs answers the empty path with
  the namespace it is asked on and the path \<^verbatim>\<open>.\<close> with the root, before it looks at any
  name and without the filter for message types; so for these two paths the call returns
  the root object, which is no message type. Every other path is left to the library
  parameter.
\<close>

definition root_lookupType ::
  "('root, 'ty) protobufjs \<Rightarrow> 'root \<Rightarrow> string \<Rightarrow> error + 'ty found" where
  "root_lookupType lib root path =
     (if path = [] \<or> path = ''.'' then Inr Found_Root else lookupType lib root path)"

text \<open>
  The two nested \<^verbatim>\<open>try\<close> blocks around \<^verbatim>\<open>root.lookupType\<close>, shared by both directions: the
  bare name first, then the name with a leading dot. \<open>None\<close> when both calls throw.
\<close>

definition lookup_bare_then_dotted ::
  "('root, 'ty) protobufjs \<Rightarrow> 'root \<Rightarrow> string \<Rightarrow> 'ty found option" where
  "lookup_bare_then_dotted lib root typeName =
     (case root_lookupType lib root typeName of
        Inr messageType \<Rightarrow> Some messageType
      | Inl _ \<Rightarrow>
          (case root_lookupType lib root (CHR ''.'' # typeName) of
             Inr messageType \<Rightarrow> Some messageType
           | Inl _ \<Rightarrow> None))"

text \<open>
  The object \<^verbatim>\<open>{ '@type': typeUrl, value: anyValue.value ? Buffer.from(anyValue.value)
  .toString('base64') : null }\<close> that \<^verbatim>\<open>decodeAnyValue\<close> returns in three places.
\<close>

definition base64_fallback ::
  "('root, 'ty) protobufjs \<Rightarrow> string \<Rightarrow> jsval \<Rightarrow> error + jsval" where
  "base64_fallback lib typeUrl v =
     (if \<not> truthy v then Inr (Obj [(''@type'', Str typeUrl), (''value'', Null)])
      else case v of
             Bytes b \<Rightarrow> Inr (Obj [(''@type'', Str typeUrl), (''value'', Str (toString_base64 lib b))])
           | _ \<Rightarrow> Inl IllTyped)"

text \<open>
  \<^verbatim>\<open>decodeAnyValue\<close>. When the lookup returned the root object, \<^verbatim>\<open>messageType.decode\<close> is no
  function; the \<^verbatim>\<open>TypeError\<close> is raised inside the outer \<^verbatim>\<open>try\<close> and ends in the fallback
  like any failure of the decoder.
\<close>

definition decodeAnyValue ::
  "('root, 'ty) protobufjs \<Rightarrow> 'root \<Rightarrow> jsobj \<Rightarrow> error + jsval" where
  "decodeAnyValue lib root anyValue =
     (if \<not> truthy (obj_get anyValue ''type_url'') then Inr (Obj anyValue)
      else case obj_get anyValue ''type_url'' of
        Str typeUrl \<Rightarrow>
          (let typeName = typeNameOf typeUrl;
               v = obj_get anyValue ''value''
           in case lookup_bare_then_dotted lib root typeName of
                None \<Rightarrow> base64_fallback lib typeUrl v
              | Some messageType \<Rightarrow>
                  if truthy v
                  then (case v of
                          Bytes valueBuffer \<Rightarrow>
                            (case messageType of
                               Found_Root \<Rightarrow> base64_fallback lib typeUrl v
                             | Found_Type ty \<Rightarrow>
                                 (case decode_toObject lib ty valueBuffer of
                                    Inr jsonObj \<Rightarrow>
                                      Inr (Obj (spread [(''@type'', Str typeUrl)] jsonObj))
                                  | Inl _ \<Rightarrow> base64_fallback lib typeUrl v))
                        | _ \<Rightarrow> Inl IllTyped)
                  else base64_fallback lib typeUrl v)
      | _ \<Rightarrow> Inl IllTyped)"

text \<open>
  \<^verbatim>\<open>encodeAnyValue\<close>. Whatever is thrown inside its \<^verbatim>\<open>try\<close> is thrown again. When the lookup
  returned the root object, \<^verbatim>\<open>messageType.verify\<close> is no function. A verification message
  is an error when it is not empty.
\<close>

definition encode_message ::
  "('root, 'ty) protobufjs \<Rightarrow> string \<Rightarrow> 'ty \<Rightarrow> jsobj \<Rightarrow> error + jsval" where
  "encode_message lib typeUrl ty messageFields =
     (case create_encode lib ty messageFields of
        Inl e \<Rightarrow> Inl e
      | Inr encoded \<Rightarrow> Inr (Obj [(''type_url'', Str typeUrl), (''value'', Bytes encoded)]))"

definition encodeAnyValue ::
  "('root, 'ty) protobufjs \<Rightarrow> 'root \<Rightarrow> jsobj \<Rightarrow> error + jsval" where
  "encodeAnyValue lib root jsonValue =
     (if \<not> truthy (obj_get jsonValue ''@type'') then Inr (Obj jsonValue)
      else case obj_get jsonValue ''@type'' of
        Str typeUrl \<Rightarrow>
          (let typeName = typeNameOf typeUrl
           in case lookup_bare_then_dotted lib root typeName of
                None \<Rightarrow> Inl (Error (''Type not found: '' @ typeName))
              | Some Found_Root \<Rightarrow> Inl (TypeError ''messageType.verify is not a function'')
              | Some (Found_Type ty) \<Rightarrow>
                  (let messageFields = without_key ''@type'' jsonValue
                   in case verify lib ty messageFields of
                        Some errMsg \<Rightarrow>
                          if errMsg \<noteq> []
                          then Inl (Error (''Invalid message structure: '' @ errMsg))
                          else encode_message lib typeUrl ty messageFields
                      | None \<Rightarrow> encode_message lib typeUrl ty messageFields))
      | _ \<Rightarrow> Inl IllTyped)"

text \<open>
  The two recursive walks. An exception raised below an array element or a property
  leaves the whole walk, so the first failure, in evaluation order, is the result. A byte
  buffer is an object that is no array: it has neither marker key and is rebuilt from its
  \<^verbatim>\<open>Object.entries\<close>.
\<close>

fun processResponseForAny ::
      "('root, 'ty) protobufjs \<Rightarrow> 'root \<Rightarrow> jsval \<Rightarrow> error + jsval"
  and processResponse_items ::
      "('root, 'ty) protobufjs \<Rightarrow> 'root \<Rightarrow> jsval list \<Rightarrow> error + jsval list"
  and processResponse_entries ::
      "('root, 'ty) protobufjs \<Rightarrow> 'root \<Rightarrow> jsobj \<Rightarrow> jsobj \<Rightarrow> error + jsobj"
where
  "processResponseForAny lib root Null = Inr Null"
| "processResponseForAny lib root Undefined = Inr Undefined"
| "processResponseForAny lib root (Arr items) =
     (case processResponse_items lib root items of
        Inl e \<Rightarrow> Inl e
      | Inr items' \<Rightarrow> Inr (Arr items'))"
| "processResponseForAny lib root (Obj record) =
     (if has_key record ''type_url'' \<and> has_key record ''value''
      then decodeAnyValue lib root record
      else (case processResponse_entries lib root record [] of
              Inl e \<Rightarrow> Inl e
            | Inr result \<Rightarrow> Inr (Obj result)))"
| "processResponseForAny lib root (Bytes b) = Inr (Obj (buffer_entries b))"
| "processResponseForAny lib root (Bool b) = Inr (Bool b)"
| "processResponseForAny lib root (Num n) = Inr (Num n)"
| "processResponseForAny lib root (Str s) = Inr (Str s)"
| "processResponse_items lib root [] = Inr []"
| "processResponse_items lib root (item # items) =
     (case processResponseForAny lib root item of
        Inl e \<Rightarrow> Inl e
      | Inr item' \<Rightarrow>
          (case processResponse_items lib root items of
             Inl e \<Rightarrow> Inl e
           | Inr items' \<Rightarrow> Inr (item' # items')))"
| "processResponse_entries lib root [] result = Inr result"
| "processResponse_entries lib root ((k, v) # entries) result =
     (case processResponseForAny lib root v of
        Inl e \<Rightarrow> Inl e
      | Inr v' \<Rightarrow> processResponse_entries lib root entries (obj_set result k v'))"



text \<open>\<^verbatim>\<open>encodeAnyValue\<close> followed by \<^verbatim>\<open>decodeAnyValue\<close> over the same schema graph.\<close>

definition encode_then_decode ::
  "('root, 'ty) protobufjs \<Rightarrow> 'root \<Rightarrow> jsobj \<Rightarrow> error + jsval" where
  "encode_then_decode lib root jsonValue =
     (case encodeAnyValue lib root jsonValue of
        Inl e \<Rightarrow> Inl e
      | Inr (Obj wire) \<Rightarrow> decodeAnyValue lib root wire
      | Inr _ \<Rightarrow> Inl IllTyped)"


section \<open>The schema resolver (protoParser.ts, parseProtoFiles)\<close>

text \<open>The texts of the well-known types, character for character.\<close>

definition GOOGLE_PROTOBUF_ANY :: string where
  \<open>GOOGLE_PROTOBUF_ANY =
     ''\<newline>syntax = "proto3";\<newline>package google.protobuf;\<newline>\<newline>message Any {\<newline>  string type_url = 1;\<newline>  bytes value = 2;\<newline>}\<newline>''\<close>

definition GOOGLE_PROTOBUF_STRUCT :: string where
  \<open>GOOGLE_PROTOBUF_STRUCT =
     ''\<newline>syntax = "proto3";\<newline>package google.protobuf;\<newline>\<newline>message Struct {\<newline>  map<string, Value> fields = 1;\<newline>}\<newline>\<newline>message Value {\<newline>  oneof kind {\<newline>    NullValue null_value = 1;\<newline>    double number_value = 2;\<newline>    string string_value = 3;\<newline>    bool bool_value = 4;\<newline>    Struct struct_value = 5;\<newline>    ListValue list_value = 6;\<newline>  }\<newline>}\<newline>\<newline>enum NullValue {\<newline>  NULL_VALUE = 0;\<newline>}\<newline>\<newline>message ListValue {\<newline>  repeated Value values = 1;\<newline>}\<newline>''\<close>

definition GOOGLE_PROTOBUF_WRAPPERS :: string where
  \<open>GOOGLE_PROTOBUF_WRAPPERS =
     ''\<newline>syntax = "proto3";\<newline>package google.protobuf;\<newline>\<newline>message DoubleValue { double value = 1; }\<newline>message FloatValue { float value = 1; }\<newline>message Int64Value { int64 value = 1; }\<newline>message UInt64Value { uint64 value = 1; }\<newline>message Int32Value { int32 value = 1; }\<newline>message UInt32Value { uint32 value = 1; }\<newline>message BoolValue { bool value = 1; }\<newline>message StringValue { string value = 1; }\<newline>message BytesValue { bytes value = 1; }\<newline>''\<close>

definition GOOGLE_PROTOBUF_TIMESTAMP :: string where
  \<open>GOOGLE_PROTOBUF_TIMESTAMP =
     ''\<newline>syntax = "proto3";\<newline>package google.protobuf;\<newline>\<newline>message Timestamp {\<newline>  int64 seconds = 1;\<newline>  int32 nanos = 2;\<newline>}\<newline>''\<close>

definition GOOGLE_PROTOBUF_DURATION :: string where
  \<open>GOOGLE_PROTOBUF_DURATION =
     ''\<newline>syntax = "proto3";\<newline>package google.protobuf;\<newline>\<newline>message Duration {\<newline>  int64 seconds = 1;\<newline>  int32 nanos = 2;\<newline>}\<newline>''\<close>

definition GOOGLE_PROTOBUF_EMPTY :: string where
  \<open>GOOGLE_PROTOBUF_EMPTY =
     ''\<newline>syntax = "proto3";\<newline>package google.protobuf;\<newline>\<newline>message Empty {}\<newline>''\<close>

definition getWellKnownTypes :: "ProtoFile list" where
  "getWellKnownTypes =
     [\<lparr>filename = ''google/protobuf/any.proto'', content = GOOGLE_PROTOBUF_ANY\<rparr>,
      \<lparr>filename = ''google/protobuf/struct.proto'', content = GOOGLE_PROTOBUF_STRUCT\<rparr>,
      \<lparr>filename = ''google/protobuf/wrappers.proto'', content = GOOGLE_PROTOBUF_WRAPPERS\<rparr>,
      \<lparr>filename = ''google/protobuf/timestamp.proto'', content = GOOGLE_PROTOBUF_TIMESTAMP\<rparr>,
      \<lparr>filename = ''google/protobuf/duration.proto'', content = GOOGLE_PROTOBUF_DURATION\<rparr>,
      \<lparr>filename = ''google/protobuf/empty.proto'', content = GOOGLE_PROTOBUF_EMPTY\<rparr>]"

text \<open>
  The first loop: each well-known text is parsed into the root, and whatever the parser
  throws is dropped by the empty \<^verbatim>\<open>catch\<close>; the root keeps what the parser did to it.
\<close>

fun parse_wellKnown :: "('root, 'ty) protobufjs \<Rightarrow> ProtoFile list \<Rightarrow> 'root \<Rightarrow> 'root" where
  "parse_wellKnown lib [] root = root"
| "parse_wellKnown lib (file # files) root =
     parse_wellKnown lib files (snd (parse lib (content file) root))"

text \<open>The second loop: the first user file that fails to parse ends the resolution.\<close>

fun parse_user :: "('root, 'ty) protobufjs \<Rightarrow> ProtoFile list \<Rightarrow> 'root \<Rightarrow> error + 'root" where
  "parse_user lib [] root = Inr root"
| \<open>parse_user lib (file # files) root =
     (case parse lib (content file) root of
        (Some e, root') \<Rightarrow>
          Inl (Error (''Failed to parse proto file "'' @ filename file @ ''": '' @ message e))
      | (None, root') \<Rightarrow> parse_user lib files root')\<close>

text \<open>
  \<^verbatim>\<open>parseProtoFiles\<close>. The source also fills a \<^verbatim>\<open>fileMap\<close> that nothing reads afterwards and
  sets \<^verbatim>\<open>root.resolvePath\<close>, which \<^verbatim>\<open>protobuf.parse\<close> does not call; neither has an effect on the
  result.
\<close>

definition parseProtoFiles :: "('root, 'ty) protobufjs \<Rightarrow> ProtoFile list \<Rightarrow> error + 'root" where
  "parseProtoFiles lib protoFiles =
     (let wellKnownTypes = getWellKnownTypes
      in case parse_user lib protoFiles (parse_wellKnown lib wellKnownTypes (new_Root lib)) of
           Inl e \<Rightarrow> Inl e
         | Inr root \<Rightarrow>
             (case resolveAll lib root of
                (Some e, root') \<Rightarrow> Inl e
              | (None, root') \<Rightarrow> Inr root'))"


section \<open>The RPC invoker (grpcClient.ts)\<close>

subsection \<open>Server streaming\<close>













record ('client, 'root) GrpcClientWrapper =
  w_client :: 'client
  w_root :: 'root
  w_serviceName :: string
  w_tempDir :: string




subsection \<open>Client construction\<close>

record GrpcConfig =
  host :: string
  useTls :: bool
  metadata :: "MetadataEntry list"
  protoFiles :: "ProtoFile list"

text \<open>The well-known files that \<^verbatim>\<open>createGrpcClient\<close> writes next to the user's files.\<close>

definition WELL_KNOWN_PROTOS :: "ProtoFile list" where
  \<open>WELL_KNOWN_PROTOS =
     [
\<lparr>filename = ''google/protobuf/any.proto'',
       content = ''syntax = "proto3";\<newline>package google.protobuf;\<newline>option java_package = "com.google.protobuf";\<newline>message Any {\<newline>  string type_url = 1;\<newline>  bytes value = 2;\<newline>}''\<rparr>,
      \<lparr>filename = ''google/protobuf/struct.proto'',
       content = ''syntax = "proto3";\<newline>package google.protobuf;\<newline>message Struct { map<string, Value> fields = 1; }\<newline>message Value {\<newline>  oneof kind {\<newline>    NullValue null_value = 1;\<newline>    double number_value = 2;\<newline>    string string_value = 3;\<newline>    bool bool_value = 4;\<newline>    Struct struct_value = 5;\<newline>    ListValue list_value = 6;\<newline>  }\<newline>}\<newline>enum NullValue { NULL_VALUE = 0; }\<newline>message ListValue { repeated Value values = 1; }''\<rparr>,
      \<lparr>filename = ''google/protobuf/timestamp.proto'',
       content = ''syntax = "proto3";\<newline>package google.protobuf;\<newline>message Timestamp { int64 seconds = 1; int32 nanos = 2; }''\<rparr>,
      \<lparr>filename = ''google/protobuf/duration.proto'',
       content = ''syntax = "proto3";\<newline>package google.protobuf;\<newline>message Duration { int64 seconds = 1; int32 nanos = 2; }''\<rparr>,
      \<lparr>filename = ''google/protobuf/empty.proto'',
       content = ''syntax = "proto3";\<newline>package google.protobuf;\<newline>message Empty {}''\<rparr>,
      \<lparr>filename = ''google/protobuf/wrappers.proto'',
       content = ''syntax = "proto3";\<newline>package google.protobuf;\<newline>message DoubleValue { double value = 1; }\<newline>message FloatValue { float value = 1; }\<newline>message Int64Value { int64 value = 1; }\<newline>message UInt64Value { uint64 value = 1; }\<newline>message Int32Value { int32 value = 1; }\<newline>message UInt32Value { uint32 value = 1; }\<newline>message BoolValue { bool value = 1; }\<newline>message StringValue { string value = 1; }\<newline>message BytesValue { bytes value = 1; }''\<rparr>]\<close>


text \<open>
  The object that \<^verbatim>\<open>grpc.loadPackageDefinition\<close> returns: plain objects (namespaces and
  message definitions) with their own properties, service client constructors (functions
  that carry a \<^verbatim>\<open>service\<close> property), and anything else. The names that a plain object
  inherits lead \<^verbatim>\<open>findServiceConstructor\<close> to \<^verbatim>\<open>null\<close> as an absent name does, so own
  properties are enough.
\<close>

datatype 'ctor grpc_obj =
    GObject "(string \<times> 'ctor grpc_obj) list"
  | GService 'ctor
  | GOther

fun walk_parts :: "'ctor grpc_obj \<Rightarrow> string list \<Rightarrow> 'ctor grpc_obj option" where
  "walk_parts current [] = Some current"
| "walk_parts current (part # parts) =
     (case current of
        GObject props \<Rightarrow>
          (case map_of props part of
             Some next \<Rightarrow> walk_parts next parts
           | None \<Rightarrow> None)
      | _ \<Rightarrow> None)"

definition findServiceConstructor :: "'ctor grpc_obj \<Rightarrow> string \<Rightarrow> 'ctor option" where
  "findServiceConstructor grpcObject name =
     (case walk_parts grpcObject (split CHR ''.'' name) of
        Some (GService ctor) \<Rightarrow> Some ctor
      | _ \<Rightarrow> None)"

text \<open>
  Node's file system and the gRPC libraries, as far as \<^verbatim>\<open>createGrpcClient\<close> meets them.
  Each call may throw; what it answers is a parameter.

  \<^item> \<open>mkdtempSync\<close>: \<^verbatim>\<open>fs.mkdtempSync(path.join(os.tmpdir(), 'n8n-grpc-'))\<close>, the new directory;
  \<^item> \<open>writeProto dir file\<close>: \<^verbatim>\<open>fs.mkdirSync\<close> and \<^verbatim>\<open>fs.writeFileSync\<close> for one file below \<open>dir\<close>;
  \<^item> \<open>loadPackage dir names\<close>: \<^verbatim>\<open>protoLoader.load\<close> of the user's files with \<open>dir\<close> as include
    directory, then \<^verbatim>\<open>grpc.loadPackageDefinition\<close>;
  \<^item> \<open>createCredentials tls\<close>: \<^verbatim>\<open>grpc.credentials.createSsl()\<close> or \<^verbatim>\<open>createInsecure()\<close>;
  \<^item> \<open>construct ctor host tls\<close>: \<^verbatim>\<open>new ServiceConstructor(host, credentials)\<close>;
  \<^item> \<open>rmSync_throws dir\<close>: whether \<^verbatim>\<open>fs.rmSync(dir, { recursive: true, force: true })\<close> throws
    instead of removing the directory.

  The state of the file system is the set of staging directories that exist.
\<close>

record ('ctor, 'client) node_grpc =
  mkdtempSync :: "error + string"
  writeProto :: "string \<Rightarrow> ProtoFile \<Rightarrow> error option"
  loadPackage :: "string \<Rightarrow> string list \<Rightarrow> error + 'ctor grpc_obj"
  createCredentials :: "bool \<Rightarrow> error option"
  construct :: "'ctor \<Rightarrow> string \<Rightarrow> bool \<Rightarrow> error + 'client"
  rmSync_throws :: "string \<Rightarrow> bool"

type_synonym staging = "string set"

definition cleanupTempDir :: "('ctor, 'client) node_grpc \<Rightarrow> string \<Rightarrow> staging \<Rightarrow> staging" where
  "cleanupTempDir env dir fs = (if rmSync_throws env dir then fs else fs - {dir})"

fun write_all :: "('ctor, 'client) node_grpc \<Rightarrow> string \<Rightarrow> ProtoFile list \<Rightarrow> error option" where
  "write_all env dir [] = None"
| "write_all env dir (protoFile # rest) =
     (case writeProto env dir protoFile of
        Some e \<Rightarrow> Some e
      | None \<Rightarrow> write_all env dir rest)"

text \<open>The body of the \<^verbatim>\<open>try\<close> block of \<^verbatim>\<open>createGrpcClient\<close>.\<close>

definition construct_in ::
  "('ctor, 'client) node_grpc \<Rightarrow> ('root, 'ty) protobufjs \<Rightarrow> GrpcConfig \<Rightarrow> string \<Rightarrow> string \<Rightarrow>
   error + ('client, 'root) GrpcClientWrapper" where
  \<open>construct_in env lib config name dir =
     (case write_all env dir WELL_KNOWN_PROTOS of
        Some e \<Rightarrow> Inl e
      | None \<Rightarrow>
     (case write_all env dir (protoFiles config) of
        Some e \<Rightarrow> Inl e
      | None \<Rightarrow>
     (case loadPackage env dir (map filename (protoFiles config)) of
        Inl e \<Rightarrow> Inl e
      | Inr grpcObject \<Rightarrow>
     (case findServiceConstructor grpcObject name of
        None \<Rightarrow> Inl (Error (''Service "'' @ name @ ''" not found in proto definitions''))
      | Some ServiceConstructor \<Rightarrow>
     (case createCredentials env (useTls config) of
        Some e \<Rightarrow> Inl e
      | None \<Rightarrow>
     (case construct env ServiceConstructor (host config) (useTls config) of
        Inl e \<Rightarrow> Inl e
      | Inr c \<Rightarrow>
     (case parseProtoFiles lib (protoFiles config) of
        Inl e \<Rightarrow> Inl e
      | Inr root \<Rightarrow>
          Inr \<lparr>w_client = c, w_root = root, w_serviceName = name, w_tempDir = dir\<rparr>)))))))\<close>

text \<open>
  \<^verbatim>\<open>createGrpcClient\<close>: the result, and the staging directories that exist when it returns
  or throws.
\<close>

definition createGrpcClient ::
  "('ctor, 'client) node_grpc \<Rightarrow> ('root, 'ty) protobufjs \<Rightarrow> staging \<Rightarrow> GrpcConfig \<Rightarrow> string \<Rightarrow>
   (error + ('client, 'root) GrpcClientWrapper) \<times> staging" where
  "createGrpcClient env lib fs config name =
     (case mkdtempSync env of
        Inl e \<Rightarrow> (Inl e, fs)
      | Inr tempDir \<Rightarrow>
          (case construct_in env lib config name tempDir of
             Inr wrapper \<Rightarrow> (Inr wrapper, insert tempDir fs)
           | Inl e \<Rightarrow> (Inl e, cleanupTempDir env tempDir (insert tempDir fs))))"


section \<open>Concrete libraries for worked examples\<close>

text \<open>
  The theorems on the codec and the invoker hold for every behaviour of the libraries. The
  worked examples run on \<open>no_types\<close>: protobufjs with a root in which nothing was ever
  declared, so that every lookup of a name throws and no message type exists to verify,
  encode or decode with. \<open>base64\<close> is the encoding of RFC 4648.
\<close>

definition base64_alphabet :: string where
  "base64_alphabet = ''ABCDEFGHIJKLMNOPQRSTUVWXYZabcdefghijklmnopqrstuvwxyz0123456789+/''"

fun base64 :: "byte list \<Rightarrow> string" where
  "base64 [] = []"
| "base64 [a] =
     (let n = unat a * 65536
      in [base64_alphabet ! (n div 262144), base64_alphabet ! (n div 4096 mod 64),
          CHR ''='', CHR ''=''])"
| "base64 [a, b] =
     (let n = unat a * 65536 + unat b * 256
      in [base64_alphabet ! (n div 262144), base64_alphabet ! (n div 4096 mod 64),
          base64_alphabet ! (n div 64 mod 64), CHR ''=''])"
| "base64 (a # b # c # rest) =
     (let n = unat a * 65536 + unat b * 256 + unat c
      in [base64_alphabet ! (n div 262144), base64_alphabet ! (n div 4096 mod 64),
          base64_alphabet ! (n div 64 mod 64), base64_alphabet ! (n mod 64)] @ base64 rest)"

definition no_types :: "(unit, unit) protobufjs" where
  "no_types =
     \<lparr>lookupType = (\<lambda>root name. Inl (Error (''no such type: '' @ name))),
      verify = (\<lambda>ty obj. None),
      create_encode = (\<lambda>ty obj. Inr []),
      decode_toObject = (\<lambda>ty b. Inr []),
      toString_base64 = base64,
      parse = (\<lambda>t root. (None, root)),
      resolveAll = (\<lambda>root. (None, root)),
      new_Root = ()\<rparr>"

text \<open>
  An environment in which the package loads without any service and the removal of the
  staging directory throws, and a transport client whose one method \<open>Watch\<close> delivers what
  it is told to.
\<close>

definition busy_env :: "(unit, unit) node_grpc" where
  "busy_env =
     \<lparr>mkdtempSync = Inr ''/tmp/n8n-grpc-Ab12Cd'',
      writeProto = (\<lambda>dir file. None),
      loadPackage = (\<lambda>dir names. Inr (GObject [])),
      createCredentials = (\<lambda>tls. None),
      construct = (\<lambda>ctor h tls. Inr ()),
      rmSync_throws = (\<lambda>dir. True)\<rparr>"

definition calm_env :: "(unit, unit) node_grpc" where
  "calm_env = busy_env\<lparr>rmSync_throws := (\<lambda>dir. False)\<rparr>"



section \<open>Properties of the splitter\<close>

lemma trimEnd_Nil_iff: "trimEnd s = [] \<longleftrightarrow> (\<forall>c\<in>set s. isWhiteSpace c)"
  by (simp add: trimEnd_def)

lemma trim_Nil_iff: "trim s = [] \<longleftrightarrow> (\<forall>c\<in>set s. isWhiteSpace c)"
proof
  assume "trim s = []"
  then have all: "\<forall>c\<in>set (dropWhile isWhiteSpace s). isWhiteSpace c"
    by (simp add: trim_def trimEnd_Nil_iff trimStart_def)
  show "\<forall>c\<in>set s. isWhiteSpace c"
  proof (cases "dropWhile isWhiteSpace s")
    case Nil
    then show ?thesis by simp
  next
    case (Cons a as)
    then have "\<not> isWhiteSpace a" by (metis hd_dropWhile list.sel(1) list.distinct(1))
    moreover have "isWhiteSpace a" using all Cons by simp
    ultimately show ?thesis by simp
  qed
next
  assume all: "\<forall>c\<in>set s. isWhiteSpace c"
  then show "trim s = []"
    by (auto simp: trim_def trimEnd_def trimStart_def dest: set_dropWhileD)
qed

lemma match_starts_with_bracket:
  "rx_match delimiterRegex s i cap = Some m \<Longrightarrow> i < length s \<and> s ! i = CHR ''[''"
  by (simp add: delimiterRegex_def split: if_splits)

lemma matchAll_from_index:
  "(\<And>i cap r. rx_match rx s i cap = Some r \<Longrightarrow> P i) \<Longrightarrow>
   m \<in> set (matchAll_from rx s i) \<Longrightarrow> P (index m)"
proof (induction rx s i rule: matchAll_from.induct)
  case (1 rx s i)
  note P = "1.prems"(1)
  note mem = "1.prems"(2)
  show ?case
  proof (cases "length s < i")
    case True
    with mem show ?thesis by (simp add: matchAll_from.simps[of _ s i])
  next
    case le: False
    show ?thesis
    proof (cases "rx_match rx s i (0, 0)")
      case None
      with le mem "1.IH"(1) P show ?thesis
        by (simp add: matchAll_from.simps[of _ s i])
    next
      case (Some r)
      obtain e a b where r: "r = (e, a, b)" by (cases r) auto
      have here: "P i" using P Some by blast
      from mem le Some r
      have "m = \<lparr>index = i, whole = slice_str s i e, group1 = slice_str s a b\<rparr>
            \<or> m \<in> set (matchAll_from rx s (if e \<le> i then i + 1 else e))"
        by (simp add: matchAll_from.simps[of _ s i])
      then show ?thesis
      proof
        assume "m = \<lparr>index = i, whole = slice_str s i e, group1 = slice_str s a b\<rparr>"
        with here show ?thesis by simp
      next
        assume "m \<in> set (matchAll_from rx s (if e \<le> i then i + 1 else e))"
        with "1.IH"(2)[OF le Some[unfolded r] refl refl] P show ?thesis
          by blast
      qed
    qed
  qed
qed

lemma marker_not_blank:
  assumes "matchAll delimiterRegex s \<noteq> []"
  shows "s \<noteq> [] \<and> trim s \<noteq> []"
proof -
  from assms obtain m where m: "m \<in> set (matchAll_from delimiterRegex s 0)"
    unfolding matchAll_def by (cases "matchAll_from delimiterRegex s 0") auto
  have "index m < length s \<and> s ! index m = CHR ''[''"
    by (rule matchAll_from_index[where P = "\<lambda>i. i < length s \<and> s ! i = CHR ''[''", OF _ m])
       (rule match_starts_with_bracket)
  then have i: "index m < length s" and c: "s ! index m = CHR ''[''"
    by simp_all
  have "\<not> isWhiteSpace (CHR ''['')" by (simp add: isWhiteSpace_def)
  with i c have "\<exists>c\<in>set s. \<not> isWhiteSpace c" by (metis nth_mem)
  then show ?thesis by (auto simp: trim_Nil_iff)
qed

lemma zip_next_nth:
  assumes "i < length ms"
  shows "zip ms (map index (tl ms) @ [n]) ! i
         = (ms ! i, if i + 1 < length ms then index (ms ! (i + 1)) else n)"
proof -
  have len: "length (map index (tl ms) @ [n]) = length ms" using assms by (cases ms) auto
  have "(map index (tl ms) @ [n]) ! i = (if i + 1 < length ms then index (ms ! (i + 1)) else n)"
  proof (cases "i + 1 < length ms")
    case True
    then have "i < length (tl ms)" by simp
    then show ?thesis using True by (simp add: nth_append nth_tl)
  next
    case False
    with assms have "i = length (tl ms)" by simp
    then show ?thesis using False by (simp add: nth_append)
  qed
  then show ?thesis using assms len by simp
qed

lemma files_loop_eq:
  "files_loop input ms i files
   = files @ concat (map (marker_file input) (drop i (zip ms (map index (tl ms) @ [length input]))))"
proof (induction input ms i files rule: files_loop.induct)
  case (1 input ms i files)
  let ?z = "zip ms (map index (tl ms) @ [length input])"
  have lenz: "length ?z = length ms" by (cases ms) auto
  show ?case
  proof (cases "i < length ms")
    case False
    then show ?thesis using lenz by (simp add: files_loop.simps[of input ms i])
  next
    case True
    have d: "drop i ?z = ?z ! i # drop (Suc i) ?z"
      using True lenz by (metis Cons_nth_drop_Suc)
    note ih = "1.IH"[OF True refl refl refl refl refl]
    show ?thesis
      apply (subst files_loop.simps)
      apply (simp only: True if_True Let_def)
      apply (subst ih)
      apply (subst d)
      apply (simp add: zip_next_nth[OF True] marker_file_def Let_def)
      done
  qed
qed


text \<open>
  Claim C10. An input that is empty or consists of white space only gives the empty file
  list: no \<open>main.proto\<close> entry is produced.
\<close>

theorem blank_input_gives_no_files:
  "(\<forall>c\<in>set input. isWhiteSpace c) \<Longrightarrow> parseDelimitedProtoContent input = []"
  by (simp add: parseDelimitedProtoContent_def trim_Nil_iff)

text \<open>C10 at an input of blanks and a line feed.\<close>

theorem blank_input_gives_no_files_witness:
  "list_all isWhiteSpace '' \<newline>  '' \<and> parseDelimitedProtoContent '' \<newline>  '' = []"
proof -
  have blank: "\<forall>c\<in>set '' \<newline>  ''. isWhiteSpace c" by (simp add: isWhiteSpace_def)
  from blank_input_gives_no_files[OF blank] blank show ?thesis by (simp add: list_all_iff)
qed

text \<open>
  Claim C4 says that every input without a marker line gives exactly one file
  \<open>main.proto\<close> holding the trimmed input. A single blank has no marker line, and the
  splitter returns no file for it (the guard in the first line of the function).
\<close>

theorem no_marker_main_proto_counterexample:
  "matchAll delimiterRegex '' '' = []
   \<and> parseDelimitedProtoContent '' '' \<noteq> [\<lparr>filename = ''main.proto'', content = trim '' ''\<rparr>]"
  by code_simp

text \<open>
  Claim C4, amended. For every input without a marker line that has at least one character
  other than white space, the splitter returns exactly one file, named \<open>main.proto\<close>, whose
  content is the trimmed input.
\<close>

theorem no_marker_main_proto:
  "matchAll delimiterRegex input = [] \<Longrightarrow> \<exists>c\<in>set input. \<not> isWhiteSpace c \<Longrightarrow>
   parseDelimitedProtoContent input = [\<lparr>filename = ''main.proto'', content = trim input\<rparr>]"
  by (auto simp: parseDelimitedProtoContent_def trim_Nil_iff)

text \<open>The amended C4 at a one-line proto text.\<close>

theorem no_marker_main_proto_witness:
  "matchAll delimiterRegex '' message A {}\<newline>'' = []
   \<and> (\<exists>c\<in>set '' message A {}\<newline>''. \<not> isWhiteSpace c)
   \<and> parseDelimitedProtoContent '' message A {}\<newline>''
       = [\<lparr>filename = ''main.proto'', content = ''message A {}''\<rparr>]"
proof -
  have none: "matchAll delimiterRegex '' message A {}\<newline>'' = []" by code_simp
  have some: "\<exists>c\<in>set '' message A {}\<newline>''. \<not> isWhiteSpace c" by (simp add: isWhiteSpace_def)
  have t: "trim '' message A {}\<newline>'' = ''message A {}''" by code_simp
  from no_marker_main_proto[OF none some] none some t show ?thesis by simp
qed

lemma rx_match_end:
  "rx_match rx s i cap = Some (e, c) \<Longrightarrow> i \<le> length s \<Longrightarrow> i \<le> e \<and> e \<le> length s"
proof (induction rx s i cap arbitrary: e c rule: rx_match.induct)
  case (5 p r s i cap)
  show ?case
  proof (cases "i < length s \<and> p (s ! i)")
    case True
    show ?thesis
    proof (cases "rx_match (Star p # r) s (i + 1) cap")
      case None
      with True "5.prems" have "rx_match r s i cap = Some (e, c)" by simp
      from "5.IH"(2)[OF True None this "5.prems"(2)] show ?thesis .
    next
      case (Some m)
      with True "5.prems" have "rx_match (Star p # r) s (i + 1) cap = Some (e, c)" by simp
      from "5.IH"(1)[OF True this] True show ?thesis by simp
    qed
  next
    case False
    with "5.prems" have "rx_match r s i cap = Some (e, c)" by auto
    from "5.IH"(3)[OF False this "5.prems"(2)] show ?thesis .
  qed
next
  case (6 p r s i cap)
  then show ?case by (fastforce split: if_splits)
next
  case (4 ch r s i cap)
  then show ?case by (fastforce split: if_splits)
qed (auto split: if_splits)

lemma matchAll_from_past_end: "length s < i \<Longrightarrow> matchAll_from rx s i = []"
  by (subst matchAll_from.simps) simp

lemma matchAll_from_ordered:
  "i \<le> length s \<Longrightarrow>
   sorted_wrt (\<lambda>m m'. index m + length (whole m) \<le> index m') (matchAll_from rx s i)
   \<and> (\<forall>m\<in>set (matchAll_from rx s i). i \<le> index m \<and> index m + length (whole m) \<le> length s)"
proof (induction rx s i rule: matchAll_from.induct)
  case (1 rx s i)
  note le = "1.prems"
  then have nlt: "\<not> length s < i" by simp
  show ?case
  proof (cases "rx_match rx s i (0, 0)")
    case None
    show ?thesis
    proof (cases "i = length s")
      case True
      then have "matchAll_from rx s (i + 1) = []" by (simp add: matchAll_from_past_end)
      with None nlt show ?thesis by (simp add: matchAll_from.simps[of rx s i])
    next
      case False
      with le have "i + 1 \<le> length s" by simp
      from "1.IH"(1)[OF nlt None this] None nlt show ?thesis
        by (auto simp: matchAll_from.simps[of rx s i])
    qed
  next
    case (Some r)
    obtain e a b where r: "r = (e, a, b)" by (cases r) auto
    from rx_match_end[OF Some[unfolded r] le] have ie: "i \<le> e" and el: "e \<le> length s" by simp_all
    let ?next = "if e \<le> i then i + 1 else e"
    let ?m = "\<lparr>index = i, whole = slice_str s i e, group1 = slice_str s a b\<rparr>"
    have len: "length (whole ?m) = e - i" using el by (simp add: slice_str_def)
    have unfold: "matchAll_from rx s i = ?m # matchAll_from rx s ?next"
      using Some r nlt by (simp add: matchAll_from.simps[of rx s i])
    have ge: "e \<le> ?next" by simp
    show ?thesis
    proof (cases "?next \<le> length s")
      case True
      from "1.IH"(2)[OF nlt Some[unfolded r] refl refl True]
      have s: "sorted_wrt (\<lambda>m m'. index m + length (whole m) \<le> index m') (matchAll_from rx s ?next)"
        and b: "\<forall>m\<in>set (matchAll_from rx s ?next). ?next \<le> index m \<and> index m + length (whole m) \<le> length s"
        by simp_all
      have after: "\<forall>m'\<in>set (matchAll_from rx s ?next). e \<le> index m'"
      proof
        fix m' assume "m' \<in> set (matchAll_from rx s ?next)"
        with b have "?next \<le> index m'" by blast
        with ge show "e \<le> index m'" by (rule le_trans)
      qed
      have here: "index ?m + length (whole ?m) = e" using len ie by simp
      have first: "\<forall>m'\<in>set (matchAll_from rx s ?next). index ?m + length (whole ?m) \<le> index m'"
        using after here by simp
      have lower: "\<forall>m\<in>set (matchAll_from rx s ?next). i \<le> index m"
        using after ie by (meson le_trans)
      have sorted: "sorted_wrt (\<lambda>m m'. index m + length (whole m) \<le> index m') (matchAll_from rx s i)"
        unfolding unfold using first s by simp
      have bounds: "\<forall>m\<in>set (matchAll_from rx s i). i \<le> index m \<and> index m + length (whole m) \<le> length s"
        unfolding unfold using lower b here el by simp
      from sorted bounds show ?thesis by simp
    next
      case False
      then have "matchAll_from rx s ?next = []" by (simp add: matchAll_from_past_end)
      with unfold len ie el show ?thesis by simp
    qed
  qed
qed

lemma markers_ordered:
  "sorted_wrt (\<lambda>m m'. index m + length (whole m) \<le> index m') (matchAll rx s)
   \<and> (\<forall>m\<in>set (matchAll rx s). index m + length (whole m) \<le> length s)"
  using matchAll_from_ordered[of 0 s rx] by (simp add: matchAll_def)

text \<open>
  Claim C5. For every input with marker lines the splitter returns, in marker order, one
  file per marker: its name is the trimmed file name of the marker, its content the trimmed
  text from the end of the marker to the start of the next marker (to the end of the input
  for the last marker); what precedes the first marker belongs to no file, and a file whose
  trimmed content is empty is dropped. The markers lie one after the other without overlap,
  so each of these texts does lie between its marker and the next. The input of the
  specification gives \<open>a.proto\<close> with \<open>X\<close> and then \<open>b.proto\<close> with \<open>Y\<close>.
\<close>

theorem marker_files_in_marker_order:
  "(matchAll delimiterRegex input \<noteq> [] \<longrightarrow>
      parseDelimitedProtoContent input = marker_files input (matchAll delimiterRegex input))
   \<and> sorted_wrt (\<lambda>m m'. index m + length (whole m) \<le> index m') (matchAll delimiterRegex input)
   \<and> parseDelimitedProtoContent ''[[=== a.proto ===]]\<newline>X\<newline>[[== b.proto ==]]\<newline>Y''
       = [\<lparr>filename = ''a.proto'', content = ''X''\<rparr>, \<lparr>filename = ''b.proto'', content = ''Y''\<rparr>]"
proof (intro conjI impI)
  assume ms: "matchAll delimiterRegex input \<noteq> []"
  from marker_not_blank[OF ms] have "input \<noteq> []" "trim input \<noteq> []" by simp_all
  with ms show "parseDelimitedProtoContent input = marker_files input (matchAll delimiterRegex input)"
    by (simp add: parseDelimitedProtoContent_def Let_def files_loop_eq marker_files_def)
next
  show "sorted_wrt (\<lambda>m m'. index m + length (whole m) \<le> index m') (matchAll delimiterRegex input)"
    using markers_ordered[of delimiterRegex input] by simp
next
  show "parseDelimitedProtoContent ''[[=== a.proto ===]]\<newline>X\<newline>[[== b.proto ==]]\<newline>Y''
        = [\<lparr>filename = ''a.proto'', content = ''X''\<rparr>, \<lparr>filename = ''b.proto'', content = ''Y''\<rparr>]"
    by code_simp
qed

text \<open>
  C5 at an input with text before the first marker and nothing but white space between the
  two markers: only the second file remains.
\<close>

theorem marker_files_in_marker_order_witness:
  "matchAll delimiterRegex ''junk\<newline>[[= a.proto =]]\<newline> \<newline>[[= b.proto =]]\<newline>B\<newline>'' \<noteq> []
   \<and> parseDelimitedProtoContent ''junk\<newline>[[= a.proto =]]\<newline> \<newline>[[= b.proto =]]\<newline>B\<newline>''
       = [\<lparr>filename = ''b.proto'', content = ''B''\<rparr>]"
proof -
  let ?s = "''junk\<newline>[[= a.proto =]]\<newline> \<newline>[[= b.proto =]]\<newline>B\<newline>''"
  have ms: "matchAll delimiterRegex ?s
            = [\<lparr>index = 5, whole = ''[[= a.proto =]]\<newline> '', group1 = ''a.proto''\<rparr>,
               \<lparr>index = 23, whole = ''[[= b.proto =]]'', group1 = ''b.proto''\<rparr>]"
    by code_simp
  have fs: "marker_files ?s [\<lparr>index = 5, whole = ''[[= a.proto =]]\<newline> '', group1 = ''a.proto''\<rparr>,
               \<lparr>index = 23, whole = ''[[= b.proto =]]'', group1 = ''b.proto''\<rparr>]
            = [\<lparr>filename = ''b.proto'', content = ''B''\<rparr>]"
    by code_simp
  from marker_files_in_marker_order[of ?s] ms fs show ?thesis by simp
qed

section \<open>Properties of the client construction\<close>

text \<open>
  Claim C8, amended. For every construction attempt that fails after the staging directory
  was created, at whichever step, \<^verbatim>\<open>cleanupTempDir\<close> has run on the directory when the error
  reaches the caller, and the error is the one of the failing step. The directory is gone
  unless \<^verbatim>\<open>fs.rmSync\<close> itself threw; that exception is swallowed, and the directory stays.
\<close>

theorem failed_construction_runs_cleanup:
  assumes "mkdtempSync env = Inr dir"
    and "createGrpcClient env lib fs config name = (Inl e, fs')"
  shows "construct_in env lib config name dir = Inl e
         \<and> fs' = cleanupTempDir env dir (insert dir fs)
         \<and> (\<not> rmSync_throws env dir \<longrightarrow> dir \<notin> fs')"
proof -
  from assms have f: "construct_in env lib config name dir = Inl e"
    by (auto simp: createGrpcClient_def split: sum.splits)
  with assms have s: "fs' = cleanupTempDir env dir (insert dir fs)"
    by (simp add: createGrpcClient_def)
  from f s show ?thesis by (simp add: cleanupTempDir_def)
qed

text \<open>The amended C8 at a package without the requested service.\<close>

theorem failed_construction_runs_cleanup_witness:
  \<open>createGrpcClient calm_env no_types {}
     \<lparr>host = ''localhost:50051'', useTls = False, metadata = [], protoFiles = []\<rparr> ''pkg.Greeter''
   = (Inl (Error ''Service "pkg.Greeter" not found in proto definitions''), {})\<close>
proof -
  let ?cfg = "\<lparr>host = ''localhost:50051'', useTls = False, metadata = [], protoFiles = []\<rparr>"
  let ?dir = "''/tmp/n8n-grpc-Ab12Cd''"
  have 1: "mkdtempSync calm_env = Inr ?dir" by (simp add: calm_env_def busy_env_def)
  have c: \<open>construct_in calm_env no_types ?cfg ''pkg.Greeter'' ?dir
           = Inl (Error ''Service "pkg.Greeter" not found in proto definitions'')\<close>
    by (simp add: construct_in_def calm_env_def busy_env_def WELL_KNOWN_PROTOS_def
          findServiceConstructor_def)
  have 2: \<open>createGrpcClient calm_env no_types {} ?cfg ''pkg.Greeter''
           = (Inl (Error ''Service "pkg.Greeter" not found in proto definitions''),
              cleanupTempDir calm_env ?dir (insert ?dir {}))\<close>
    by (simp add: createGrpcClient_def 1 c)
  have r: "\<not> rmSync_throws calm_env ?dir" by (simp add: calm_env_def busy_env_def)
  from failed_construction_runs_cleanup[OF 1 2] r
  have "cleanupTempDir calm_env ?dir (insert ?dir {}) = {}"
    by (simp add: cleanupTempDir_def)
  with 2 show ?thesis by simp
qed

text \<open>
  Claim C8 says that every failed construction leaves no staging directory behind. When
  the package lacks the requested service and the removal of the directory throws, the
  empty \<^verbatim>\<open>catch\<close> of \<^verbatim>\<open>cleanupTempDir\<close> drops that exception and the caller receives the
  "not found" error while the directory still exists.
\<close>

theorem failed_cleanup_leaves_directory_counterexample:
  \<open>mkdtempSync busy_env = Inr ''/tmp/n8n-grpc-Ab12Cd''
   \<and> createGrpcClient busy_env no_types {}
        \<lparr>host = ''localhost:50051'', useTls = False, metadata = [], protoFiles = []\<rparr> ''pkg.Greeter''
      = (Inl (Error ''Service "pkg.Greeter" not found in proto definitions''),
         {''/tmp/n8n-grpc-Ab12Cd''})\<close>
  by (simp add: createGrpcClient_def construct_in_def busy_env_def WELL_KNOWN_PROTOS_def
        findServiceConstructor_def cleanupTempDir_def)

section \<open>Properties of the call metadata\<close>

lemma toLowerChar_idem: "toLowerChar (toLowerChar c) = toLowerChar c"
proof -
  let ?n = "of_char c :: nat"
    show ?thesis
  proof (cases "(65 \<le> ?n \<and> ?n \<le> 90) \<or> (192 \<le> ?n \<and> ?n \<le> 222 \<and> ?n \<noteq> 215)")
    case True
    then have 1: "toLowerChar c = char_of (?n + 32)" by (simp add: toLowerChar_def Let_def)
    have 2: "(of_char (char_of (?n + 32)) :: nat) = ?n + 32" using True by auto
    show ?thesis unfolding 1 using True by (auto simp: toLowerChar_def Let_def 2)
  next
    case False
    have "toLowerChar c = c"
      unfolding toLowerChar_def Let_def using False by (simp only: if_False)
    then show ?thesis by simp
  qed
qed

lemma toLowerCase_idem: "toLowerCase (toLowerCase s) = toLowerCase s"
  by (simp add: toLowerCase_def toLowerChar_idem)

lemma Metadata_add_legal:
  "isLegalKey (toLowerCase k) \<Longrightarrow> \<not> isBinaryKey (toLowerCase k) \<Longrightarrow> isLegalNonBinaryValue v \<Longrightarrow>
   Metadata_add md (toLowerCase k) v = Inr (md @ [(toLowerCase k, v)])"
  by (simp add: Metadata_add_def Let_def toLowerCase_idem)

lemma Metadata_add_illegal:
  "\<not> (isLegalKey (toLowerCase k) \<and> \<not> isBinaryKey (toLowerCase k) \<and> isLegalNonBinaryValue v) \<Longrightarrow>
   isl (Metadata_add md (toLowerCase k) v)"
  by (auto simp: Metadata_add_def Let_def toLowerCase_idem)

lemma createMetadata_loop_step:
  "createMetadata_loop md (e # es) =
     (if entry_kept e
      then (case Metadata_add md (fst (entry_sent e)) (snd (entry_sent e)) of
              Inl err \<Rightarrow> Inl err
            | Inr md' \<Rightarrow> createMetadata_loop md' es)
      else createMetadata_loop md es)"
  by (cases "key e"; cases "val e") (auto simp: entry_kept_def entry_sent_def Let_def)

lemma createMetadata_loop_legal:
  "all_kept_legal es \<Longrightarrow>
   createMetadata_loop md es = Inr (md @ map entry_sent (filter entry_kept es))"
proof (induction es arbitrary: md)
  case Nil
  show ?case by simp
next
  case (Cons e es)
  show ?case
  proof (cases "entry_kept e")
    case False
    with Cons.prems have "all_kept_legal es" by (simp add: all_kept_legal_def)
    from Cons.IH[OF this] False show ?thesis by (subst createMetadata_loop_step) simp
  next
    case True
    with Cons.prems have l: "entry_legal e" and r: "all_kept_legal es"
      by (simp_all add: all_kept_legal_def)
    from l have "Metadata_add md (fst (entry_sent e)) (snd (entry_sent e)) = Inr (md @ [entry_sent e])"
      using Metadata_add_legal[of "trim (the (key e))" "trim (the (val e))" md]
      by (simp add: entry_legal_def entry_sent_def)
    with True Cons.IH[OF r] show ?thesis by (subst createMetadata_loop_step) simp
  qed
qed

lemma createMetadata_loop_illegal:
  "\<not> all_kept_legal es \<Longrightarrow> isl (createMetadata_loop md es)"
proof (induction es arbitrary: md)
  case Nil
  then show ?case by (simp add: all_kept_legal_def)
next
  case (Cons e es)
  show ?case
  proof (cases "entry_kept e")
    case False
    with Cons.prems have "\<not> all_kept_legal es" by (simp add: all_kept_legal_def)
    from Cons.IH[OF this] False show ?thesis by (subst createMetadata_loop_step) simp
  next
    case True
    show ?thesis
    proof (cases "entry_legal e")
      case l: True
      with True Cons.prems have r: "\<not> all_kept_legal es" by (simp add: all_kept_legal_def)
      from l have "Metadata_add md (fst (entry_sent e)) (snd (entry_sent e)) = Inr (md @ [entry_sent e])"
        using Metadata_add_legal[of "trim (the (key e))" "trim (the (val e))" md]
        by (simp add: entry_legal_def entry_sent_def)
      with True Cons.IH[OF r] show ?thesis by (subst createMetadata_loop_step) simp
    next
      case False
      then have "isl (Metadata_add md (fst (entry_sent e)) (snd (entry_sent e)))"
        using Metadata_add_illegal[of "trim (the (key e))" "trim (the (val e))" md]
        by (simp add: entry_legal_def entry_sent_def)
      then obtain err where "Metadata_add md (fst (entry_sent e)) (snd (entry_sent e)) = Inl err"
        by (auto simp: isl_def)
      with True show ?thesis by (subst createMetadata_loop_step) simp
    qed
  qed
qed

lemma createMetadata_loop_skips:
  "\<not> entry_kept e \<Longrightarrow>
   createMetadata_loop md (es @ e # es') = createMetadata_loop md (es @ es')"
proof (induction es arbitrary: md)
  case Nil
  then show ?case by (simp only: append_Nil createMetadata_loop_step[of md e] if_False)
next
  case (Cons a es)
  have "createMetadata_loop md ((a # es) @ e # es') = createMetadata_loop md (a # (es @ e # es'))"
    by simp
  also have "\<dots> = createMetadata_loop md (a # (es @ es'))"
    by (simp only: createMetadata_loop_step[of md a] Cons.IH[OF Cons.prems])
  finally show ?case by simp
qed

text \<open>
  Claim C9, amended. For every list of metadata entries in which each entry with non-empty
  trimmed key and value is accepted by \<^verbatim>\<open>grpc.Metadata\<close> (legal lower-case key, not ending in
  \<^verbatim>\<open>-bin\<close>, printable value), the transmitted metadata holds exactly those entries, in their
  order, each with the trimmed key in lower case and the trimmed value; for every other
  list the function throws and nothing is transmitted. The entry \<open>Authorization\<close> /
  \<open>" Bearer x "\<close> is sent as \<open>authorization\<close> / \<open>Bearer x\<close>, and an entry whose value trims
  to the empty string leaves no trace.
\<close>

theorem createMetadata_keeps_legal_nonempty_lowercased:
  "(all_kept_legal entries \<longrightarrow>
      createMetadata entries = Inr (map entry_sent (filter entry_kept entries)))
   \<and> (\<not> all_kept_legal entries \<longrightarrow> isl (createMetadata entries))
   \<and> createMetadata [\<lparr>key = Some ''Authorization'', val = Some '' Bearer x ''\<rparr>]
       = Inr [(''authorization'', ''Bearer x'')]
   \<and> (trim v = [] \<longrightarrow>
        createMetadata (es @ \<lparr>key = k, val = Some v\<rparr> # es') = createMetadata (es @ es'))"
proof (intro conjI impI)
  assume "all_kept_legal entries"
  then show "createMetadata entries = Inr (map entry_sent (filter entry_kept entries))"
    by (simp add: createMetadata_def new_Metadata_def createMetadata_loop_legal)
next
  assume "\<not> all_kept_legal entries"
  then show "isl (createMetadata entries)"
    by (simp add: createMetadata_def createMetadata_loop_illegal)
next
  show "createMetadata [\<lparr>key = Some ''Authorization'', val = Some '' Bearer x ''\<rparr>]
        = Inr [(''authorization'', ''Bearer x'')]"
    by code_simp
next
  assume "trim v = []"
  then have "\<not> entry_kept \<lparr>key = k, val = Some v\<rparr>"
    by (simp add: entry_kept_def split: option.splits)
  then show "createMetadata (es @ \<lparr>key = k, val = Some v\<rparr> # es') = createMetadata (es @ es')"
    by (simp add: createMetadata_def createMetadata_loop_skips)
qed

text \<open>The amended C9 at a legal entry followed by an entry with a blank value.\<close>

theorem createMetadata_keeps_legal_nonempty_lowercased_witness:
  "all_kept_legal [\<lparr>key = Some ''X-Trace'', val = Some '' 1''\<rparr>,
                   \<lparr>key = Some ''Authorization'', val = Some ''  ''\<rparr>]
   \<and> createMetadata [\<lparr>key = Some ''X-Trace'', val = Some '' 1''\<rparr>,
                      \<lparr>key = Some ''Authorization'', val = Some ''  ''\<rparr>]
       = Inr [(''x-trace'', ''1'')]
   \<and> \<not> all_kept_legal [\<lparr>key = Some ''Trace-Bin'', val = Some ''1''\<rparr>]
   \<and> isl (createMetadata [\<lparr>key = Some ''Trace-Bin'', val = Some ''1''\<rparr>])"
proof -
  let ?es = "[\<lparr>key = Some ''X-Trace'', val = Some '' 1''\<rparr>,
              \<lparr>key = Some ''Authorization'', val = Some ''  ''\<rparr>]"
  let ?bin = "[\<lparr>key = Some ''Trace-Bin'', val = Some ''1''\<rparr>]"
  have l: "all_kept_legal ?es" by code_simp
  have m: "map entry_sent (filter entry_kept ?es) = [(''x-trace'', ''1'')]" by code_simp
  have n: "\<not> all_kept_legal ?bin" by code_simp
  from createMetadata_keeps_legal_nonempty_lowercased[of ?es] l m
  have 1: "createMetadata ?es = Inr [(''x-trace'', ''1'')]" by simp
  from createMetadata_keeps_legal_nonempty_lowercased[of ?bin] n
  have 2: "isl (createMetadata ?bin)" by blast
  from l 1 n 2 show ?thesis by blast
qed

text \<open>
  Claim C9 says that for every list the transmitted metadata holds the entries with
  non-empty trimmed key and value. In the list below all three entries have both; the key
  of the second has a blank in it, \<^verbatim>\<open>add\<close> throws on it, and nothing is transmitted.
\<close>

theorem createMetadata_illegal_key_counterexample:
  \<open>map entry_sent (filter entry_kept
       [\<lparr>key = Some ''X-Trace'', val = Some ''1''\<rparr>,
        \<lparr>key = Some ''Bad Key'', val = Some ''x''\<rparr>,
        \<lparr>key = Some ''Later'', val = Some ''y''\<rparr>])
     = [(''x-trace'', ''1''), (''bad key'', ''x''), (''later'', ''y'')]
   \<and> createMetadata
       [\<lparr>key = Some ''X-Trace'', val = Some ''1''\<rparr>,
        \<lparr>key = Some ''Bad Key'', val = Some ''x''\<rparr>,
        \<lparr>key = Some ''Later'', val = Some ''y''\<rparr>]
     = Inl (Error ''Metadata key "bad key" contains illegal characters'')\<close>
  by code_simp


section \<open>Properties of the Any codec\<close>

lemma obj_get_has_key: "obj_get obj k = v \<Longrightarrow> v \<noteq> Undefined \<Longrightarrow> has_key obj k"
  by (auto simp: obj_get_def has_key_def split: option.splits dest: map_of_SomeD intro: rev_image_eqI)

lemma unresolved_lookup:
  "isl (root_lookupType lib root n) \<Longrightarrow> isl (root_lookupType lib root (CHR ''.'' # n)) \<Longrightarrow>
   lookup_bare_then_dotted lib root n = None"
  by (auto simp: lookup_bare_then_dotted_def isl_def)

lemma unresolved_url_not_empty:
  "isl (root_lookupType lib root (typeNameOf typeUrl)) \<Longrightarrow> typeUrl \<noteq> []"
  by (auto simp: root_lookupType_def typeNameOf_def)

lemma decodeAnyValue_unresolved:
  assumes "obj_get anyValue ''type_url'' = Str typeUrl" and "typeUrl \<noteq> []"
    and "obj_get anyValue ''value'' = Bytes payload"
    and "lookup_bare_then_dotted lib root (typeNameOf typeUrl) = None"
  shows "decodeAnyValue lib root anyValue
         = Inr (Obj [(''@type'', Str typeUrl), (''value'', Str (toString_base64 lib payload))])"
  using assms by (simp add: decodeAnyValue_def base64_fallback_def)





lemma response_walk_degrades:
  assumes "obj_get anyValue ''type_url'' = Str typeUrl"
    and "obj_get anyValue ''value'' = Bytes payload"
    and "isl (root_lookupType lib root (typeNameOf typeUrl))"
    and "isl (root_lookupType lib root (CHR ''.'' # typeNameOf typeUrl))"
  shows "decodeAnyValue lib root anyValue
           = Inr (Obj [(''@type'', Str typeUrl), (''value'', Str (toString_base64 lib payload))])
         \<and> processResponseForAny lib root (Obj anyValue)
           = Inr (Obj [(''@type'', Str typeUrl), (''value'', Str (toString_base64 lib payload))])
         \<and> processResponseForAny lib root (Obj [(''detail'', Arr [Obj anyValue])])
           = Inr (Obj [(''detail'',
                Arr [Obj [(''@type'', Str typeUrl), (''value'', Str (toString_base64 lib payload))]])])"
proof -
  have ne: "typeUrl \<noteq> []" using assms(3) by (rule unresolved_url_not_empty)
  have none: "lookup_bare_then_dotted lib root (typeNameOf typeUrl) = None"
    using assms(3,4) by (rule unresolved_lookup)
  have k1: "has_key anyValue ''type_url''" using assms(1) by (auto intro: obj_get_has_key)
  have k2: "has_key anyValue ''value''" using assms(2) by (auto intro: obj_get_has_key)
  have d: "decodeAnyValue lib root anyValue
           = Inr (Obj [(''@type'', Str typeUrl), (''value'', Str (toString_base64 lib payload))])"
    by (rule decodeAnyValue_unresolved[OF assms(1) ne assms(2) none])
  have w: "processResponseForAny lib root (Obj anyValue)
           = Inr (Obj [(''@type'', Str typeUrl), (''value'', Str (toString_base64 lib payload))])"
    using d k1 k2 by simp
  let ?F = "Obj [(''@type'', Str typeUrl), (''value'', Str (toString_base64 lib payload))]"
  have i: "processResponse_items lib root [Obj anyValue] = Inr [?F]"
    by (simp only: processResponse_items.simps w sum.case)
  have a: "processResponseForAny lib root (Arr [Obj anyValue]) = Inr (Arr [?F])"
    by (simp only: processResponseForAny.simps i sum.case)
  have s: "obj_set [] ''detail'' (Arr [?F]) = [(''detail'', Arr [?F])]"
    by (simp add: obj_set_def)
  have e: "processResponse_entries lib root [(''detail'', Arr [Obj anyValue])] []
           = Inr [(''detail'', Arr [?F])]"
    by (simp only: processResponse_entries.simps a sum.case s)
  have n: "\<not> (has_key [(''detail'', Arr [Obj anyValue])] ''type_url''
              \<and> has_key [(''detail'', Arr [Obj anyValue])] ''value'')"
    by (simp add: has_key_def)
  have "processResponseForAny lib root (Obj [(''detail'', Arr [Obj anyValue])])
           = Inr (Obj [(''detail'', Arr [?F])])"
    by (simp only: processResponseForAny.simps n if_False e sum.case)
  with d w show ?thesis by simp
qed

text \<open>
  Claim C2. For every Any wire value whose \<open>type_url\<close> is a string and whose \<open>value\<close> is a
  byte buffer, if the type name (the part of the URL after the last slash) resolves neither
  bare nor with a leading dot, decoding does not throw and returns the object with \<open>@type\<close>
  holding the URL and \<open>value\<close> holding the base64 text of the payload. The walk over a
  response returns that object in place of the wire value, also inside an array or under a
  field of the response, so the response as a whole does not fail.
\<close>

theorem decode_unresolvable_type_degrades:
  assumes "obj_get anyValue ''type_url'' = Str typeUrl"
    and "obj_get anyValue ''value'' = Bytes payload"
    and "isl (root_lookupType lib root (typeNameOf typeUrl))"
    and "isl (root_lookupType lib root (CHR ''.'' # typeNameOf typeUrl))"
  shows "decodeAnyValue lib root anyValue
           = Inr (Obj [(''@type'', Str typeUrl), (''value'', Str (toString_base64 lib payload))])
         \<and> processResponseForAny lib root (Obj anyValue)
           = Inr (Obj [(''@type'', Str typeUrl), (''value'', Str (toString_base64 lib payload))])
         \<and> processResponseForAny lib root (Obj [(''detail'', Arr [Obj anyValue])])
           = Inr (Obj [(''detail'',
                Arr [Obj [(''@type'', Str typeUrl), (''value'', Str (toString_base64 lib payload))]])])"
  using assms by (rule response_walk_degrades)

text \<open>C2 at a payload of three bytes for a type that no schema declares.\<close>

theorem decode_unresolvable_type_degrades_witness:
  "processResponseForAny no_types ()
     (Obj [(''detail'', Arr [Obj [(''type_url'', Str ''type.example.org/pkg.Missing''),
                                  (''value'', Bytes [10, 5, 104])]])])
   = Inr (Obj [(''detail'', Arr [Obj [(''@type'', Str ''type.example.org/pkg.Missing''),
                                      (''value'', Str ''CgVo'')]])])"
proof -
  let ?any = "[(''type_url'', Str ''type.example.org/pkg.Missing''), (''value'', Bytes [10, 5, 104])]"
  have 1: "obj_get ?any ''type_url'' = Str ''type.example.org/pkg.Missing''" by (simp add: obj_get_def)
  have 3: "obj_get ?any ''value'' = Bytes [10, 5, 104]" by (simp add: obj_get_def)
  have 4: "isl (root_lookupType no_types () (typeNameOf ''type.example.org/pkg.Missing''))"
    by code_simp
  have 5: "isl (root_lookupType no_types () (CHR ''.'' # typeNameOf ''type.example.org/pkg.Missing''))"
    by code_simp
  have b: "toString_base64 no_types [10, 5, 104] = ''CgVo''"
    by (simp add: no_types_def base64_alphabet_def Let_def)
  from decode_unresolvable_type_degrades[OF 1 3 4 5] b show ?thesis by simp
qed




section \<open>Properties of the server-streaming call\<close>






end
